theory Spec2Isabelle
  imports Complex_Main
begin

section \<open>Data model\<close>

text \<open>
  A token of \<^verbatim>\<open>Lexer.next\<close> is a Python \<^verbatim>\<open>int\<close> (an integer literal) or a
  \<^verbatim>\<open>str\<close> (an operator, an identifier, the end marker \<^verbatim>\<open>'$'\<close> or an error token
  \<^verbatim>\<open>'#<code>'\<close>).
\<close>

datatype token = TInt int | TStr string

text \<open>
  An AST node is a Python \<^verbatim>\<open>int\<close>, a \<^verbatim>\<open>str\<close> (a variable name) or a tuple
  \<^verbatim>\<open>(op, child, ...)\<close> whose first component is the operator string.
\<close>

datatype ast = Lit int | Var string | Tuple string "ast list"

text \<open>
  The exceptions that the parser and the evaluator raise. \<open>FloatResult\<close> is not a Python
  exception: \<^verbatim>\<open>left ** right\<close> with a negative integer \<^verbatim>\<open>right\<close> is a float in Python,
  and this integer model of \<^verbatim>\<open>eval\<close> stops there.
\<close>

datatype exn =
    ParseError string
  | ZeroDivisionError
  | ValueError string
  | TypeError
  | IndexError
  | FloatResult

text \<open>
  The global dictionary \<^verbatim>\<open>VARS\<close>. Its keys are the objects that \<^verbatim>\<open>assign_var\<close> is
  given, which are AST nodes (a \<^verbatim>\<open>str\<close> for every tree that the parser builds).
\<close>

type_synonym vars = "ast \<rightharpoonup> int"

section \<open>Lexer\<close>

definition is_blank :: "char \<Rightarrow> bool" where
  "is_blank c \<longleftrightarrow> c = CHR '' '' \<or> c = CHR 0x09"

definition is_digit :: "char \<Rightarrow> bool" where
  "is_digit c \<longleftrightarrow> 48 \<le> (of_char c :: nat) \<and> (of_char c :: nat) \<le> 57"

definition is_letter :: "char \<Rightarrow> bool" where
  "is_letter c \<longleftrightarrow>
     97 \<le> (of_char c :: nat) \<and> (of_char c :: nat) \<le> 122 \<or>
     65 \<le> (of_char c :: nat) \<and> (of_char c :: nat) \<le> 90"

definition is_punct :: "char \<Rightarrow> bool" where
  "is_punct c \<longleftrightarrow> c \<in> set ''+-*/^()?:|&!@%=<>''"

text \<open>\<^verbatim>\<open>int(s)\<close> on a run of decimal digits.\<close>

definition int_of_str :: "string \<Rightarrow> int" where
  "int_of_str s = foldl (\<lambda>n c. 10 * n + (int (of_char c) - 48)) 0 s"

text \<open>\<^verbatim>\<open>str(n)\<close> on an integer.\<close>

fun str_nat :: "nat \<Rightarrow> string" where
  "str_nat n =
     (if n < 10 then [char_of (48 + n)]
      else str_nat (n div 10) @ [char_of (48 + n mod 10)])"

declare str_nat.simps [simp del]

definition str_int :: "int \<Rightarrow> string" where
  "str_int i = (if i < 0 then CHR ''-'' # str_nat (nat (- i)) else str_nat (nat i))"

text \<open>The token of the last lexer rule, \<^verbatim>\<open>'#' + str(ord(s))\<close>.\<close>

definition error_token :: "char \<Rightarrow> token" where
  "error_token c = TStr (CHR ''#'' # str_nat (of_char c))"

text \<open>
  \<^verbatim>\<open>Lexer.next\<close>. The fields \<^verbatim>\<open>s\<close> and \<^verbatim>\<open>pos\<close> of the lexer are read only through
  \<^verbatim>\<open>match(self.s, self.pos)\<close> and \<^verbatim>\<open>self.pos >= len(self.s)\<close>, so the lexer is
  modelled by the unread input \<^verbatim>\<open>s[pos:]\<close>; the function returns the token and the
  input left after it. The rules are tried in the order of \<^verbatim>\<open>Lexer.rules\<close>. The last
  rule, \<^verbatim>\<open>re.compile(r'.')\<close>, matches every character but a newline; at a newline no
  rule matches, and the final \<^verbatim>\<open>return '$'\<close> is reached with the position unchanged.
\<close>

definition Lexer_next :: "string \<Rightarrow> token \<times> string" where
  "Lexer_next s0 =
     (let s = dropWhile is_blank s0 in
      case s of
        [] \<Rightarrow> (TStr ''$'', [])
      | c # cs \<Rightarrow>
          if c \<in> set ''=!<>'' \<and> (case cs of [] \<Rightarrow> False | d # _ \<Rightarrow> d = CHR ''='')
          then (TStr (take 2 s), drop 2 s)
          else if is_digit c
          then (TInt (int_of_str (takeWhile is_digit s)), dropWhile is_digit s)
          else if is_letter c
          then (TStr (takeWhile is_letter s), dropWhile is_letter s)
          else if is_punct c
          then (TStr [c], cs)
          else if c \<noteq> CHR 0x0A
          then (error_token c, cs)
          else (TStr ''$'', s))"

section \<open>Parser\<close>

record parser =
  lexer :: string
  tok :: token

definition Parser :: "string \<Rightarrow> parser" where
  "Parser input_string =
     (case Lexer_next input_string of (t, rest) \<Rightarrow> \<lparr>lexer = rest, tok = t\<rparr>)"

definition Parser_next :: "parser \<Rightarrow> parser" where
  "Parser_next p = (case Lexer_next (lexer p) of (t, rest) \<Rightarrow> \<lparr>lexer = rest, tok = t\<rparr>)"

definition str_token :: "token \<Rightarrow> string" where
  "str_token t = (case t of TInt i \<Rightarrow> str_int i | TStr s \<Rightarrow> s)"

definition Parser_error :: "parser \<Rightarrow> string \<Rightarrow> exn + 'a" where
  "Parser_error p msg = Inl (ParseError (msg @ '' [next token: '' @ str_token (tok p) @ '']''))"

text \<open>
  \<^verbatim>\<open>str.isalpha\<close> on the code points below 256: a non-empty string of letters. The
  tokens and nodes it is applied to hold ASCII characters only.
\<close>

definition isalpha_char :: "char \<Rightarrow> bool" where
  "isalpha_char c \<longleftrightarrow>
     is_letter c \<or> (of_char c :: nat) \<in> {170, 181, 186} \<or>
     192 \<le> (of_char c :: nat) \<and> (of_char c :: nat) \<noteq> 215 \<and> (of_char c :: nat) \<noteq> 247"

definition isalpha :: "string \<Rightarrow> bool" where
  "isalpha s \<longleftrightarrow> s \<noteq> [] \<and> list_all isalpha_char s"

text \<open>\<^verbatim>\<open>isinstance(e, str) and e.isalpha()\<close> on a node.\<close>

definition is_name :: "ast \<Rightarrow> bool" where
  "is_name e = (case e of Var x \<Rightarrow> isalpha x | _ \<Rightarrow> False)"

text \<open>
  The parser object is the lexer and the current token \<^verbatim>\<open>self.tok\<close>; \<^verbatim>\<open>Parser.next\<close>
  reads the next token into it. Every \<^verbatim>\<open>parse_...\<close> method takes the parser and returns
  the \<^verbatim>\<open>ParseError\<close> it raises, or its node and the parser it leaves. The \<^verbatim>\<open>while\<close>
  loops of \<^verbatim>\<open>parse_compare\<close>, \<^verbatim>\<open>parse_add\<close> and \<^verbatim>\<open>parse_mul\<close> are the functions
  \<open>compare_loop\<close>, \<open>add_loop\<close> and \<open>mul_loop\<close>, which carry the node \<^verbatim>\<open>e\<close> built
  so far. (\<^verbatim>\<open>CHR 0x27\<close> is the apostrophe that ends two of the messages.)
\<close>

text \<open>
  What the termination of the parser rests on: the length of the unread input, plus one
  while the current token is not the end marker.
\<close>

definition remaining :: "parser \<Rightarrow> nat" where
  "remaining p = length (lexer p) + (if tok p = TStr ''$'' then 0 else 1)"

function (sequential)
    parse_assign :: "parser \<Rightarrow> exn + (ast \<times> parser)"
and parse_ternary :: "parser \<Rightarrow> exn + (ast \<times> parser)"
and parse_or :: "parser \<Rightarrow> exn + (ast \<times> parser)"
and parse_and :: "parser \<Rightarrow> exn + (ast \<times> parser)"
and parse_not :: "parser \<Rightarrow> exn + (ast \<times> parser)"
and parse_compare :: "parser \<Rightarrow> exn + (ast \<times> parser)"
and compare_loop :: "ast \<Rightarrow> parser \<Rightarrow> exn + (ast \<times> parser)"
and parse_add :: "parser \<Rightarrow> exn + (ast \<times> parser)"
and add_loop :: "ast \<Rightarrow> parser \<Rightarrow> exn + (ast \<times> parser)"
and parse_mul :: "parser \<Rightarrow> exn + (ast \<times> parser)"
and mul_loop :: "ast \<Rightarrow> parser \<Rightarrow> exn + (ast \<times> parser)"
and parse_unary :: "parser \<Rightarrow> exn + (ast \<times> parser)"
and parse_pow :: "parser \<Rightarrow> exn + (ast \<times> parser)"
and parse_factor :: "parser \<Rightarrow> exn + (ast \<times> parser)"
where
  "parse_assign p =
     (case parse_ternary p of
        Inl err \<Rightarrow> Inl err
      | Inr (e, p1) \<Rightarrow>
          if is_name e \<and> tok p1 = TStr ''=''
          then (case parse_assign (Parser_next p1) of
                  Inl err \<Rightarrow> Inl err
                | Inr (rhs, p2) \<Rightarrow> Inr (Tuple ''='' [e, rhs], p2))
          else Inr (e, p1))"
| "parse_ternary p =
     (case parse_or p of
        Inl err \<Rightarrow> Inl err
      | Inr (e, p1) \<Rightarrow>
          if tok p1 = TStr ''?''
          then (case parse_assign (Parser_next p1) of
                  Inl err \<Rightarrow> Inl err
                | Inr (true_branch, p2) \<Rightarrow>
                    if tok p2 \<noteq> TStr '':''
                    then Parser_error p2 ''missing ':' in ternary expression''
                    else (case parse_assign (Parser_next p2) of
                            Inl err \<Rightarrow> Inl err
                          | Inr (false_branch, p3) \<Rightarrow>
                              Inr (Tuple ''?:'' [e, true_branch, false_branch], p3)))
          else Inr (e, p1))"
| "parse_or p =
     (case parse_and p of
        Inl err \<Rightarrow> Inl err
      | Inr (left, p1) \<Rightarrow>
          if tok p1 = TStr ''|''
          then (case parse_or (Parser_next p1) of
                  Inl err \<Rightarrow> Inl err
                | Inr (right, p2) \<Rightarrow> Inr (Tuple ''|'' [left, right], p2))
          else Inr (left, p1))"
| "parse_and p =
     (case parse_not p of
        Inl err \<Rightarrow> Inl err
      | Inr (left, p1) \<Rightarrow>
          if tok p1 = TStr ''&''
          then (case parse_and (Parser_next p1) of
                  Inl err \<Rightarrow> Inl err
                | Inr (right, p2) \<Rightarrow> Inr (Tuple ''&'' [left, right], p2))
          else Inr (left, p1))"
| "parse_not p =
     (if tok p = TStr ''!''
      then (case parse_not (Parser_next p) of
              Inl err \<Rightarrow> Inl err
            | Inr (e, p1) \<Rightarrow> Inr (Tuple ''!'' [e], p1))
      else parse_compare p)"
| "parse_compare p =
     (case parse_add p of
        Inl err \<Rightarrow> Inl err
      | Inr (e, p1) \<Rightarrow> compare_loop e p1)"
| "compare_loop e p =
     (case tok p of
        TInt _ \<Rightarrow> Inr (e, p)
      | TStr op \<Rightarrow>
          if op \<in> set [''=='', ''!='', ''<'', ''<='', ''>'', ''>='']
          then (case parse_add (Parser_next p) of
                  Inl err \<Rightarrow> Inl err
                | Inr (right, p1) \<Rightarrow> compare_loop (Tuple op [e, right]) p1)
          else Inr (e, p))"
| "parse_add p =
     (case parse_mul p of
        Inl err \<Rightarrow> Inl err
      | Inr (e, p1) \<Rightarrow> add_loop e p1)"
| "add_loop e p =
     (case tok p of
        TInt _ \<Rightarrow> Inr (e, p)
      | TStr op \<Rightarrow>
          if op \<in> set [''+'', ''-'']
          then (case parse_mul (Parser_next p) of
                  Inl err \<Rightarrow> Inl err
                | Inr (right, p1) \<Rightarrow> add_loop (Tuple op [e, right]) p1)
          else Inr (e, p))"
| "parse_mul p =
     (case parse_unary p of
        Inl err \<Rightarrow> Inl err
      | Inr (e, p1) \<Rightarrow> mul_loop e p1)"
| "mul_loop e p =
     (case tok p of
        TInt _ \<Rightarrow> Inr (e, p)
      | TStr op \<Rightarrow>
          if op \<in> set [''*'', ''/'', ''%'']
          then (case parse_unary (Parser_next p) of
                  Inl err \<Rightarrow> Inl err
                | Inr (right, p1) \<Rightarrow> mul_loop (Tuple op [e, right]) p1)
          else Inr (e, p))"
| "parse_unary p =
     (case tok p of
        TInt _ \<Rightarrow> parse_pow p
      | TStr op \<Rightarrow>
          if op \<in> set [''-'', ''@'']
          then (case parse_unary (Parser_next p) of
                  Inl err \<Rightarrow> Inl err
                | Inr (e, p1) \<Rightarrow> Inr (Tuple op [e], p1))
          else parse_pow p)"
| "parse_pow p =
     (case parse_factor p of
        Inl err \<Rightarrow> Inl err
      | Inr (left, p1) \<Rightarrow>
          if tok p1 = TStr ''^''
          then (case parse_pow (Parser_next p1) of
                  Inl err \<Rightarrow> Inl err
                | Inr (right, p2) \<Rightarrow> Inr (Tuple ''^'' [left, right], p2))
          else Inr (left, p1))"
| "parse_factor p =
     (case tok p of
        TInt val \<Rightarrow> Inr (Lit val, Parser_next p)
      | TStr s \<Rightarrow>
          if isalpha s then Inr (Var s, Parser_next p)
          else if s = ''(''
          then (case parse_assign (Parser_next p) of
                  Inl err \<Rightarrow> Inl err
                | Inr (e, p1) \<Rightarrow>
                    if tok p1 \<noteq> TStr '')'' then Parser_error p1 (''missing ')'' @ [CHR 0x27])
                    else Inr (e, Parser_next p1))
          else Parser_error p (''expected int, variable, or '('' @ [CHR 0x27]))"
  by pat_completeness auto

text \<open>The domain of the parser's functions, on which its termination is proved below.\<close>

abbreviation (input) pdom where
  "pdom \<equiv> parse_assign_parse_ternary_parse_or_parse_and_parse_not_parse_compare_compare_loop_parse_add_add_loop_parse_mul_mul_loop_parse_unary_parse_pow_parse_factor_dom"

text \<open>\<^verbatim>\<open>Parser.parse\<close>: an expression, then the end marker.\<close>

definition parse :: "parser \<Rightarrow> exn + ast" where
  "parse p =
     (case parse_assign p of
        Inl err \<Rightarrow> Inl err
      | Inr (e, p1) \<Rightarrow>
          if tok p1 = TStr ''$'' then Inr e else Parser_error p1 ''extraneous input'')"

section \<open>Evaluation\<close>

text \<open>
  The end of \<^verbatim>\<open>eval\<close>, from \<^verbatim>\<open>if op == '+'\<close> on: the operator applied to
  \<^verbatim>\<open>left\<close> and \<^verbatim>\<open>right\<close>, each of which is \<^verbatim>\<open>None\<close> when the tuple is too short
  to hold it. Arithmetic and ordering on \<^verbatim>\<open>None\<close> raise \<^verbatim>\<open>TypeError\<close>; \<^verbatim>\<open>==\<close> and
  \<^verbatim>\<open>!=\<close> do not. Python's \<^verbatim>\<open>//\<close> and \<^verbatim>\<open>%\<close> on integers are \<open>div\<close> and \<open>mod\<close> on
  \<^typ>\<open>int\<close>, except that a zero divisor raises.
\<close>

definition eval_binary :: "string \<Rightarrow> int option \<Rightarrow> int option \<Rightarrow> exn + int" where
  "eval_binary op left right =
     (if op = ''+'' then
        (case (left, right) of (Some l, Some r) \<Rightarrow> Inr (l + r) | _ \<Rightarrow> Inl TypeError)
      else if op = ''*'' then
        (case (left, right) of (Some l, Some r) \<Rightarrow> Inr (l * r) | _ \<Rightarrow> Inl TypeError)
      else if op = ''/'' then
        (case (left, right) of
           (Some l, Some r) \<Rightarrow> if r = 0 then Inl ZeroDivisionError else Inr (l div r)
         | _ \<Rightarrow> Inl TypeError)
      else if op = ''%'' then
        (case (left, right) of
           (Some l, Some r) \<Rightarrow> if r = 0 then Inl ZeroDivisionError else Inr (l mod r)
         | _ \<Rightarrow> Inl TypeError)
      else if op = ''^'' then
        (case (left, right) of
           (Some l, Some r) \<Rightarrow>
             if 0 \<le> r then Inr (l ^ nat r)
             else if l = 0 then Inl ZeroDivisionError
             else Inl FloatResult
         | _ \<Rightarrow> Inl TypeError)
      else if op = ''=='' then Inr (if left = right then 1 else 0)
      else if op = ''!='' then Inr (if left \<noteq> right then 1 else 0)
      else if op = ''<'' then
        (case (left, right) of
           (Some l, Some r) \<Rightarrow> Inr (if l < r then 1 else 0) | _ \<Rightarrow> Inl TypeError)
      else if op = ''<='' then
        (case (left, right) of
           (Some l, Some r) \<Rightarrow> Inr (if l \<le> r then 1 else 0) | _ \<Rightarrow> Inl TypeError)
      else if op = ''>'' then
        (case (left, right) of
           (Some l, Some r) \<Rightarrow> Inr (if l > r then 1 else 0) | _ \<Rightarrow> Inl TypeError)
      else if op = ''>='' then
        (case (left, right) of
           (Some l, Some r) \<Rightarrow> Inr (if l \<ge> r then 1 else 0) | _ \<Rightarrow> Inl TypeError)
      else Inl (ValueError (''Unknown operator in eval: '' @ op)))"

text \<open>
  \<^verbatim>\<open>eval\<close>, with the dictionary \<^verbatim>\<open>VARS\<close> passed in and returned: the second component
  of the result is \<^verbatim>\<open>VARS\<close> when the call returns or raises. The operators are tested
  in the order of the source, so a tuple whose operator is \<^verbatim>\<open>'-'\<close> is negated whatever
  its length. \<^verbatim>\<open>e[i]\<close> on a tuple that is too short raises \<^verbatim>\<open>IndexError\<close>.
\<close>

fun eval :: "ast \<Rightarrow> vars \<Rightarrow> (exn + int) \<times> vars" where
  "eval (Lit n) vars = (Inr n, vars)"
| "eval (Var x) vars = (Inr (case vars (Var x) of None \<Rightarrow> 0 | Some v \<Rightarrow> v), vars)"
| "eval (Tuple op args) vars =
     (if op = ''='' then
        (case args of
           varname # rhs # _ \<Rightarrow>
             (case eval rhs vars of
                (Inl err, vars1) \<Rightarrow> (Inl err, vars1)
              | (Inr val, vars1) \<Rightarrow> (Inr val, vars1(varname \<mapsto> val)))
         | _ \<Rightarrow> (Inl IndexError, vars))
      else if op = ''?:'' then
        (case args of
           [] \<Rightarrow> (Inl IndexError, vars)
         | c # rest \<Rightarrow>
             (case eval c vars of
                (Inl err, vars1) \<Rightarrow> (Inl err, vars1)
              | (Inr cond_val, vars1) \<Rightarrow>
                  if cond_val \<noteq> 0
                  then (case rest of
                          [] \<Rightarrow> (Inl IndexError, vars1)
                        | t # _ \<Rightarrow> eval t vars1)
                  else (case rest of
                          _ # f # _ \<Rightarrow> eval f vars1
                        | _ \<Rightarrow> (Inl IndexError, vars1))))
      else if op = ''|'' then
        (case args of
           [] \<Rightarrow> (Inl IndexError, vars)
         | l # rest \<Rightarrow>
             (case eval l vars of
                (Inl err, vars1) \<Rightarrow> (Inl err, vars1)
              | (Inr left_val, vars1) \<Rightarrow>
                  if left_val \<noteq> 0 then (Inr left_val, vars1)
                  else (case rest of
                          [] \<Rightarrow> (Inl IndexError, vars1)
                        | r # _ \<Rightarrow> eval r vars1)))
      else if op = ''&'' then
        (case args of
           [] \<Rightarrow> (Inl IndexError, vars)
         | l # rest \<Rightarrow>
             (case eval l vars of
                (Inl err, vars1) \<Rightarrow> (Inl err, vars1)
              | (Inr left_val, vars1) \<Rightarrow>
                  if left_val = 0 then (Inr 0, vars1)
                  else (case rest of
                          [] \<Rightarrow> (Inl IndexError, vars1)
                        | r # _ \<Rightarrow> eval r vars1)))
      else if op = ''!'' then
        (case args of
           [] \<Rightarrow> (Inl IndexError, vars)
         | a # _ \<Rightarrow>
             (case eval a vars of
                (Inl err, vars1) \<Rightarrow> (Inl err, vars1)
              | (Inr v, vars1) \<Rightarrow> (Inr (if v = 0 then 1 else 0), vars1)))
      else if op = ''-'' then
        (case args of
           [] \<Rightarrow> (Inl IndexError, vars)
         | a # _ \<Rightarrow>
             (case eval a vars of
                (Inl err, vars1) \<Rightarrow> (Inl err, vars1)
              | (Inr v, vars1) \<Rightarrow> (Inr (- v), vars1)))
      else if op = ''@'' then
        (case args of
           [] \<Rightarrow> (Inl IndexError, vars)
         | a # _ \<Rightarrow>
             (case eval a vars of
                (Inl err, vars1) \<Rightarrow> (Inl err, vars1)
              | (Inr v, vars1) \<Rightarrow> (Inr (abs v), vars1)))
      else
        (case args of
           [] \<Rightarrow> (eval_binary op None None, vars)
         | a # rest \<Rightarrow>
             (case eval a vars of
                (Inl err, vars1) \<Rightarrow> (Inl err, vars1)
              | (Inr left, vars1) \<Rightarrow>
                  (case rest of
                     [] \<Rightarrow> (eval_binary op (Some left) None, vars1)
                   | b # _ \<Rightarrow>
                       (case eval b vars1 of
                          (Inl err, vars2) \<Rightarrow> (Inl err, vars2)
                        | (Inr right, vars2) \<Rightarrow>
                            (eval_binary op (Some left) (Some right), vars2))))))"

declare eval.simps(3) [simp del]

text \<open>\<^verbatim>\<open>calc\<close>: parse a line and evaluate it.\<close>

definition calc :: "string \<Rightarrow> vars \<Rightarrow> (exn + int) \<times> vars" where
  "calc line vars =
     (case parse (Parser line) of
        Inl err \<Rightarrow> (Inl err, vars)
      | Inr ast \<Rightarrow> eval ast vars)"


text \<open>The characters that none of the lexer rules before the last one matches.\<close>

definition unrecognized :: "char \<Rightarrow> bool" where
  "unrecognized c \<longleftrightarrow> \<not> is_blank c \<and> \<not> is_digit c \<and> \<not> is_letter c \<and> \<not> is_punct c"

text \<open>
  The character \<open>c\<close> occurs in the unread input before any newline; and the parser
  states in which \<open>c\<close> has not been passed: the current token is not the end marker,
  and it is the error token of \<open>c\<close> or \<open>c\<close> is still ahead.
\<close>

definition ahead :: "char \<Rightarrow> string \<Rightarrow> bool" where
  "ahead c s \<longleftrightarrow> c \<in> set (takeWhile (\<lambda>d. d \<noteq> CHR 0x0A) s)"

definition blocked :: "char \<Rightarrow> parser \<Rightarrow> bool" where
  "blocked c p \<longleftrightarrow> tok p \<noteq> TStr ''$'' \<and> (tok p = error_token c \<or> ahead c (lexer p))"

definition fails_or_blocked :: "char \<Rightarrow> exn + (ast \<times> parser) \<Rightarrow> bool" where
  "fails_or_blocked c r =
     (case r of
        Inl err \<Rightarrow> (case err of ParseError _ \<Rightarrow> True | _ \<Rightarrow> False)
      | Inr (e, p) \<Rightarrow> blocked c p)"

section \<open>Termination of the parser\<close>

lemma Lexer_next_length:
  assumes a: "Lexer_next s = (t, rest)"
  shows "length rest \<le> length s \<and> (t \<noteq> TStr ''$'' \<longrightarrow> length rest < length s)"
proof (cases "dropWhile is_blank s")
  case Nil
  with a show ?thesis by (simp add: Lexer_next_def)
next
  case (Cons c cs)
  have "length (dropWhile is_blank s) \<le> length s"
    by (rule length_dropWhile_le)
  with Cons have l: "Suc (length cs) \<le> length s" by simp
  have dd: "length (dropWhile is_digit cs) \<le> length cs" "length (dropWhile is_letter cs) \<le> length cs"
    "length (drop (Suc 0) cs) \<le> length cs"
    by (simp_all add: length_dropWhile_le)
  from a have "length rest \<le> length cs \<or> (t = TStr ''$'' \<and> rest = c # cs)"
    using dd unfolding Lexer_next_def Let_def Cons
    by (auto simp: numeral_2_eq_2 split: if_splits)
  with l show ?thesis by auto
qed

lemma remaining_next_le: "remaining (Parser_next p) \<le> remaining p"
  using Lexer_next_length[of "lexer p"]
  by (auto simp: remaining_def Parser_next_def split: prod.splits)

lemma remaining_next_less: "tok p \<noteq> TStr ''$'' \<Longrightarrow> remaining (Parser_next p) < remaining p"
  using Lexer_next_length[of "lexer p"]
  by (auto simp: remaining_def Parser_next_def split: prod.splits)

lemma next_le_trans: "remaining r \<le> remaining (Parser_next q) \<Longrightarrow> remaining r \<le> remaining q"
  using remaining_next_le[of q] by simp

lemma parse_remaining_dom:
  "pdom (Inl (Inl (Inl p))) \<Longrightarrow> \<forall>e p'. parse_assign p = Inr (e, p') \<longrightarrow> remaining p' \<le> remaining p"
  "pdom (Inl (Inl (Inr (Inl p)))) \<Longrightarrow> \<forall>e p'. parse_ternary p = Inr (e, p') \<longrightarrow> remaining p' \<le> remaining p"
  "pdom (Inl (Inl (Inr (Inr p)))) \<Longrightarrow> \<forall>e p'. parse_or p = Inr (e, p') \<longrightarrow> remaining p' \<le> remaining p"
  "pdom (Inl (Inr (Inl (Inl p)))) \<Longrightarrow> \<forall>e p'. parse_and p = Inr (e, p') \<longrightarrow> remaining p' \<le> remaining p"
  "pdom (Inl (Inr (Inl (Inr p)))) \<Longrightarrow> \<forall>e p'. parse_not p = Inr (e, p') \<longrightarrow> remaining p' \<le> remaining p"
  "pdom (Inl (Inr (Inr (Inl p)))) \<Longrightarrow> \<forall>e p'. parse_compare p = Inr (e, p') \<longrightarrow> remaining p' \<le> remaining p"
  "pdom (Inl (Inr (Inr (Inr (a, p))))) \<Longrightarrow> \<forall>e p'. compare_loop a p = Inr (e, p') \<longrightarrow> remaining p' \<le> remaining p"
  "pdom (Inr (Inl (Inl p))) \<Longrightarrow> \<forall>e p'. parse_add p = Inr (e, p') \<longrightarrow> remaining p' \<le> remaining p"
  "pdom (Inr (Inl (Inr (Inl (a, p))))) \<Longrightarrow> \<forall>e p'. add_loop a p = Inr (e, p') \<longrightarrow> remaining p' \<le> remaining p"
  "pdom (Inr (Inl (Inr (Inr p)))) \<Longrightarrow> \<forall>e p'. parse_mul p = Inr (e, p') \<longrightarrow> remaining p' \<le> remaining p"
  "pdom (Inr (Inr (Inl (Inl (a, p))))) \<Longrightarrow> \<forall>e p'. mul_loop a p = Inr (e, p') \<longrightarrow> remaining p' \<le> remaining p"
  "pdom (Inr (Inr (Inl (Inr p)))) \<Longrightarrow> \<forall>e p'. parse_unary p = Inr (e, p') \<longrightarrow> remaining p' \<le> remaining p"
  "pdom (Inr (Inr (Inr (Inl p)))) \<Longrightarrow> \<forall>e p'. parse_pow p = Inr (e, p') \<longrightarrow> remaining p' \<le> remaining p"
  "pdom (Inr (Inr (Inr (Inr p)))) \<Longrightarrow> \<forall>e p'. parse_factor p = Inr (e, p') \<longrightarrow> remaining p' \<le> remaining p"
proof (induct rule: parse_assign_parse_ternary_parse_or_parse_and_parse_not_parse_compare_compare_loop_parse_add_add_loop_parse_mul_mul_loop_parse_unary_parse_pow_parse_factor.pinduct)
  case (1 p)
  show ?case
    using 1(2-)
    by (subst parse_assign.psimps[OF 1(1)])
       (auto simp: Parser_error_def split: sum.splits if_splits token.splits; metis le_trans remaining_next_le)
next
  case (2 p)
  show ?case
    using 2(2-)
    by (subst parse_ternary.psimps[OF 2(1)])
       (auto simp: Parser_error_def split: sum.splits if_splits token.splits; metis le_trans remaining_next_le)
next
  case (3 p)
  show ?case
    using 3(2-)
    by (subst parse_or.psimps[OF 3(1)])
       (auto simp: Parser_error_def split: sum.splits if_splits token.splits; metis le_trans remaining_next_le)
next
  case (4 p)
  show ?case
    using 4(2-)
    by (subst parse_and.psimps[OF 4(1)])
       (auto simp: Parser_error_def split: sum.splits if_splits token.splits; metis le_trans remaining_next_le)
next
  case (5 p)
  show ?case
    using 5(2-)
    by (subst parse_not.psimps[OF 5(1)])
       (auto simp: Parser_error_def split: sum.splits if_splits token.splits; metis le_trans remaining_next_le)
next
  case (6 p)
  show ?case
    using 6(2-)
    by (subst parse_compare.psimps[OF 6(1)])
       (auto simp: Parser_error_def split: sum.splits if_splits token.splits; metis le_trans remaining_next_le)
next
  case (7 a p)
  show ?case
    using 7(2-)
    by (subst compare_loop.psimps[OF 7(1)])
       (auto simp: Parser_error_def split: sum.splits if_splits token.splits; metis le_trans remaining_next_le)
next
  case (8 p)
  show ?case
    using 8(2-)
    by (subst parse_add.psimps[OF 8(1)])
       (auto simp: Parser_error_def split: sum.splits if_splits token.splits; metis le_trans remaining_next_le)
next
  case (9 a p)
  show ?case
    using 9(2-)
    by (subst add_loop.psimps[OF 9(1)])
       (auto simp: Parser_error_def split: sum.splits if_splits token.splits; metis le_trans remaining_next_le)
next
  case (10 p)
  show ?case
    using 10(2-)
    by (subst parse_mul.psimps[OF 10(1)])
       (auto simp: Parser_error_def split: sum.splits if_splits token.splits; metis le_trans remaining_next_le)
next
  case (11 a p)
  show ?case
    using 11(2-)
    by (subst mul_loop.psimps[OF 11(1)])
       (auto simp: Parser_error_def split: sum.splits if_splits token.splits; metis le_trans remaining_next_le)
next
  case (12 p)
  show ?case
    using 12(2-)
    by (subst parse_unary.psimps[OF 12(1)])
       (auto simp: Parser_error_def split: sum.splits if_splits token.splits; metis le_trans remaining_next_le)
next
  case (13 p)
  show ?case
    using 13(2-)
    by (subst parse_pow.psimps[OF 13(1)])
       (auto simp: Parser_error_def split: sum.splits if_splits token.splits; metis le_trans remaining_next_le)
next
  case (14 p)
  show ?case
    using 14(2-)
    by (subst parse_factor.psimps[OF 14(1)])
       (auto simp: Parser_error_def split: sum.splits if_splits token.splits; metis le_trans remaining_next_le)
qed

lemma remaining_next_less': "tok p = TStr s \<Longrightarrow> s \<noteq> ''$'' \<Longrightarrow> remaining (Parser_next p) < remaining p"
  by (rule remaining_next_less) simp

termination parse_assign
  apply (relation "measures [
     (\<lambda>x. case x of
         Inl (Inl (Inl p)) \<Rightarrow> remaining p
       | Inl (Inl (Inr (Inl p))) \<Rightarrow> remaining p
       | Inl (Inl (Inr (Inr p))) \<Rightarrow> remaining p
       | Inl (Inr (Inl (Inl p))) \<Rightarrow> remaining p
       | Inl (Inr (Inl (Inr p))) \<Rightarrow> remaining p
       | Inl (Inr (Inr (Inl p))) \<Rightarrow> remaining p
       | Inl (Inr (Inr (Inr (e, p)))) \<Rightarrow> remaining p
       | Inr (Inl (Inl p)) \<Rightarrow> remaining p
       | Inr (Inl (Inr (Inl (e, p)))) \<Rightarrow> remaining p
       | Inr (Inl (Inr (Inr p))) \<Rightarrow> remaining p
       | Inr (Inr (Inl (Inl (e, p)))) \<Rightarrow> remaining p
       | Inr (Inr (Inl (Inr p))) \<Rightarrow> remaining p
       | Inr (Inr (Inr (Inl p))) \<Rightarrow> remaining p
       | Inr (Inr (Inr (Inr p))) \<Rightarrow> remaining p),
     (\<lambda>x. case x of
         Inl (Inl (Inl p)) \<Rightarrow> 13
       | Inl (Inl (Inr (Inl p))) \<Rightarrow> 12
       | Inl (Inl (Inr (Inr p))) \<Rightarrow> 11
       | Inl (Inr (Inl (Inl p))) \<Rightarrow> 10
       | Inl (Inr (Inl (Inr p))) \<Rightarrow> 9
       | Inl (Inr (Inr (Inl p))) \<Rightarrow> 8
       | Inl (Inr (Inr (Inr (e, p)))) \<Rightarrow> 7
       | Inr (Inl (Inl p)) \<Rightarrow> 6
       | Inr (Inl (Inr (Inl (e, p)))) \<Rightarrow> 5
       | Inr (Inl (Inr (Inr p))) \<Rightarrow> 4
       | Inr (Inr (Inl (Inl (e, p)))) \<Rightarrow> 3
       | Inr (Inr (Inl (Inr p))) \<Rightarrow> 2
       | Inr (Inr (Inr (Inl p))) \<Rightarrow> 1
       | Inr (Inr (Inr (Inr p))) \<Rightarrow> (0::nat))]")
  apply simp_all
  apply (fastforce dest: parse_remaining_dom[rule_format] remaining_next_less')+
  done


declare parse_assign.simps [simp del] parse_ternary.simps [simp del] parse_or.simps [simp del]
  parse_and.simps [simp del] parse_not.simps [simp del] parse_compare.simps [simp del]
  compare_loop.simps [simp del] parse_add.simps [simp del] add_loop.simps [simp del]
  parse_mul.simps [simp del] mul_loop.simps [simp del] parse_unary.simps [simp del]
  parse_pow.simps [simp del] parse_factor.simps [simp del]

section \<open>Failures and effects of the evaluator\<close>

lemma eval_binary_not_ParseError: "eval_binary op l r \<noteq> Inl (ParseError msg)"
  by (simp add: eval_binary_def split: option.splits)

lemma eval_Inl_cases:
  "eval (Tuple op args) vars = (Inl err, vars') \<Longrightarrow>
     err = IndexError \<or> (\<exists>l r. eval_binary op l r = Inl err) \<or>
     (\<exists>c \<in> set args. \<exists>vars0. eval c vars0 = (Inl err, vars'))"
  by (subst (asm) eval.simps(3))
     (auto split: if_splits list.splits prod.splits sum.splits)

lemma eval_not_ParseError: "eval e vars = (Inl err, vars') \<Longrightarrow> err \<noteq> ParseError msg"
proof (induction e arbitrary: err vars vars')
  case (Lit n)
  then show ?case by simp
next
  case (Var x)
  then show ?case by simp
next
  case (Tuple op args)
  from eval_Inl_cases[OF Tuple.prems] Tuple.IH eval_binary_not_ParseError
  show ?case by (metis exn.distinct(7))
qed



section \<open>The lexer on identifiers, literals and blanks\<close>

lemma letter_not_other:
  "is_letter c \<Longrightarrow> \<not> is_blank c \<and> \<not> is_digit c \<and> c \<notin> set ''=!<>''"
  by (auto simp: is_letter_def is_blank_def is_digit_def)

lemma digit_not_other:
  "is_digit c \<Longrightarrow> \<not> is_blank c \<and> c \<notin> set ''=!<>''"
  by (auto simp: is_blank_def is_digit_def)

lemma Lexer_next_blank: "Lexer_next (CHR '' '' # s) = Lexer_next s"
  by (simp add: Lexer_next_def is_blank_def)

lemma Lexer_next_letters:
  assumes "x \<noteq> []" and "\<forall>c \<in> set x. is_letter c"
    and "rest = [] \<or> \<not> is_letter (hd rest)"
  shows "Lexer_next (x @ rest) = (TStr x, rest)"
proof -
  from assms(1) obtain c cs where x: "x = c # cs" by (cases x) auto
  with assms(2) have c: "is_letter c" by simp
  have t: "takeWhile is_letter (x @ rest) = x" "dropWhile is_letter (x @ rest) = rest"
    using assms(2,3) by (cases rest; simp add: takeWhile_append dropWhile_append)+
  have d: "dropWhile is_blank (x @ rest) = x @ rest"
    using letter_not_other[OF c] by (simp add: x)
  show ?thesis
    unfolding Lexer_next_def Let_def d
    using letter_not_other[OF c] c t by (simp add: x)
qed

lemma Lexer_next_digits:
  assumes "ds \<noteq> []" and "\<forall>c \<in> set ds. is_digit c"
    and "rest = [] \<or> \<not> is_digit (hd rest)"
  shows "Lexer_next (ds @ rest) = (TInt (int_of_str ds), rest)"
proof -
  from assms(1) obtain c cs where x: "ds = c # cs" by (cases ds) auto
  with assms(2) have c: "is_digit c" by simp
  have t: "takeWhile is_digit (ds @ rest) = ds" "dropWhile is_digit (ds @ rest) = rest"
    using assms(2,3) by (cases rest; simp add: takeWhile_append dropWhile_append)+
  have d: "dropWhile is_blank (ds @ rest) = ds @ rest"
    using digit_not_other[OF c] by (simp add: x)
  show ?thesis
    unfolding Lexer_next_def Let_def d
    using digit_not_other[OF c] c t by (simp add: x)
qed

lemma letters_isalpha: "x \<noteq> [] \<Longrightarrow> \<forall>c \<in> set x. is_letter c \<Longrightarrow> isalpha x"
  by (simp add: isalpha_def isalpha_char_def list_all_iff)

section \<open>From a factor up to an expression\<close>

lemma factor_to_ternary:
  assumes f: "parse_factor p = Inr (e, p1)"
    and p: "tok p \<noteq> TStr ''!''" "tok p \<noteq> TStr ''-''" "tok p \<noteq> TStr ''@''"
    and p1: "tok p1 \<in> {TStr '')'', TStr ''='', TStr ''$''}"
  shows "parse_ternary p = Inr (e, p1)"
proof -
  have 1: "parse_pow p = Inr (e, p1)"
    using f p1 by (auto simp: parse_pow.simps[of p])
  have 2: "parse_unary p = Inr (e, p1)"
    using 1 p by (auto simp: parse_unary.simps[of p] split: token.splits)
  have 3: "mul_loop e p1 = Inr (e, p1)"
    using p1 by (auto simp: mul_loop.simps[of e p1])
  have 4: "parse_mul p = Inr (e, p1)"
    using 2 3 by (simp add: parse_mul.simps[of p])
  have 5: "add_loop e p1 = Inr (e, p1)"
    using p1 by (auto simp: add_loop.simps[of e p1])
  have 6: "parse_add p = Inr (e, p1)"
    using 4 5 by (simp add: parse_add.simps[of p])
  have 7: "compare_loop e p1 = Inr (e, p1)"
    using p1 by (auto simp: compare_loop.simps[of e p1])
  have 8: "parse_compare p = Inr (e, p1)"
    using 6 7 by (simp add: parse_compare.simps[of p])
  have 9: "parse_not p = Inr (e, p1)"
    using 8 p by (simp add: parse_not.simps[of p])
  have 10: "parse_and p = Inr (e, p1)"
    using 9 p1 by (auto simp: parse_and.simps[of p])
  have 11: "parse_or p = Inr (e, p1)"
    using 10 p1 by (auto simp: parse_or.simps[of p])
  show ?thesis
    using 11 p1 by (auto simp: parse_ternary.simps[of p])
qed

lemma letters_not_operator:
  "x \<noteq> [] \<Longrightarrow> \<forall>c \<in> set x. is_letter c \<Longrightarrow>
     x \<noteq> ''!'' \<and> x \<noteq> ''-'' \<and> x \<noteq> ''@'' \<and> x \<noteq> ''('' \<and> x \<noteq> ''$''"
  by (auto simp: is_letter_def)

lemma parse_assign_atom:
  assumes f: "parse_factor p = Inr (e, p1)"
    and p: "tok p \<noteq> TStr ''!''" "tok p \<noteq> TStr ''-''" "tok p \<noteq> TStr ''@''"
    and p1: "tok p1 \<in> {TStr '')'', TStr ''$''}"
  shows "parse_assign p = Inr (e, p1)"
proof -
  have "parse_ternary p = Inr (e, p1)"
    using f p p1 by (intro factor_to_ternary) auto
  then show ?thesis using p1 by (auto simp: parse_assign.simps[of p])
qed

lemma parse_assign_name_eq:
  assumes f: "parse_factor p = Inr (Var x, p1)" and x: "isalpha x"
    and p: "tok p \<noteq> TStr ''!''" "tok p \<noteq> TStr ''-''" "tok p \<noteq> TStr ''@''"
    and p1: "tok p1 = TStr ''=''"
  shows "parse_assign p =
           (case parse_assign (Parser_next p1) of
              Inl err \<Rightarrow> Inl err
            | Inr (rhs, p2) \<Rightarrow> Inr (Tuple ''='' [Var x, rhs], p2))"
proof -
  have "parse_ternary p = Inr (Var x, p1)"
    using f p p1 by (intro factor_to_ternary) auto
  then show ?thesis using p1 x by (simp add: parse_assign.simps[of p] is_name_def)
qed

lemma parse_factor_name:
  "tok p = TStr x \<Longrightarrow> isalpha x \<Longrightarrow> parse_factor p = Inr (Var x, Parser_next p)"
  by (simp add: parse_factor.simps[of p])

lemma parse_factor_int:
  "tok p = TInt n \<Longrightarrow> parse_factor p = Inr (Lit n, Parser_next p)"
  by (simp add: parse_factor.simps[of p])

lemma Lexer_next_Nil: "Lexer_next [] = (TStr ''$'', [])"
  by (simp add: Lexer_next_def)

text \<open>An identifier on its own.\<close>

lemma parse_identifier:
  assumes "x \<noteq> []" and "\<forall>c \<in> set x. is_letter c"
  shows "parse (Parser x) = Inr (Var x)"
proof -
  let ?p = "\<lparr>lexer = [], tok = TStr x\<rparr>"
  let ?p1 = "\<lparr>lexer = [], tok = TStr ''$''\<rparr>"
  have P: "Parser x = ?p"
    using Lexer_next_letters[OF assms, of "[]"] by (simp add: Parser_def)
  have n: "Parser_next ?p = ?p1" by (simp add: Parser_next_def Lexer_next_Nil)
  have f: "parse_factor ?p = Inr (Var x, ?p1)"
    using parse_factor_name[of ?p x] letters_isalpha[OF assms] n by simp
  have "parse_assign ?p = Inr (Var x, ?p1)"
    using f letters_not_operator[OF assms] by (intro parse_assign_atom) auto
  then show ?thesis by (simp add: parse_def P)
qed

text \<open>An integer literal as the right-hand side of an assignment to \<^verbatim>\<open>x\<close>.\<close>

lemma parse_x_assign_literal:
  assumes "ds \<noteq> []" and "\<forall>c \<in> set ds. is_digit c"
  shows "parse (Parser (''x = '' @ ds)) = Inr (Tuple ''='' [Var ''x'', Lit (int_of_str ds)])"
proof -
  let ?p = "\<lparr>lexer = '' = '' @ ds, tok = TStr ''x''\<rparr>"
  let ?p1 = "\<lparr>lexer = '' '' @ ds, tok = TStr ''=''\<rparr>"
  let ?p2 = "\<lparr>lexer = [], tok = TInt (int_of_str ds)\<rparr>"
  let ?p3 = "\<lparr>lexer = [], tok = TStr ''$''\<rparr>"
  have x: "''x'' \<noteq> []" "\<forall>c \<in> set ''x''. is_letter c" "isalpha ''x''"
    by (simp_all add: is_letter_def isalpha_def isalpha_char_def)
  have "Lexer_next (''x'' @ '' = '' @ ds) = (TStr ''x'', '' = '' @ ds)"
    by (rule Lexer_next_letters) (simp_all add: is_letter_def)
  then have P: "Parser (''x = '' @ ds) = ?p" by (simp add: Parser_def)
  have n: "Parser_next ?p = ?p1"
    by (simp add: Parser_next_def Lexer_next_def is_blank_def is_digit_def is_letter_def is_punct_def)
  have "Lexer_next ('' '' @ ds) = (TInt (int_of_str ds), [])"
    using Lexer_next_digits[OF assms, of "[]"] by (simp add: Lexer_next_blank)
  then have n1: "Parser_next ?p1 = ?p2" by (simp add: Parser_next_def)
  have n2: "Parser_next ?p2 = ?p3" by (simp add: Parser_next_def Lexer_next_Nil)
  have rhs: "parse_assign ?p2 = Inr (Lit (int_of_str ds), ?p3)"
    using parse_factor_int[of ?p2 "int_of_str ds"] n2 by (intro parse_assign_atom) auto
  have "parse_factor ?p = Inr (Var ''x'', ?p1)"
    using parse_factor_name[of ?p "''x''"] x n by simp
  then have "parse_assign ?p =
      (case parse_assign (Parser_next ?p1) of
         Inl err \<Rightarrow> Inl err
       | Inr (rhs, p2) \<Rightarrow> Inr (Tuple ''='' [Var ''x'', rhs], p2))"
    using x by (intro parse_assign_name_eq) auto
  then show ?thesis using P n1 rhs by (simp add: parse_def)
qed

text \<open>\<^verbatim>\<open>(x) = e\<close> and \<^verbatim>\<open>x = e\<close>.\<close>

lemma parse_assign_name_text:
  assumes "x \<noteq> []" and "\<forall>c \<in> set x. is_letter c"
  shows "parse_assign (Parser (x @ '' = '' @ e)) =
           (case parse_assign (Parser e) of
              Inl err \<Rightarrow> Inl err
            | Inr (rhs, p2) \<Rightarrow> Inr (Tuple ''='' [Var x, rhs], p2))"
proof -
  let ?p = "\<lparr>lexer = '' = '' @ e, tok = TStr x\<rparr>"
  let ?p1 = "\<lparr>lexer = '' '' @ e, tok = TStr ''=''\<rparr>"
  have "Lexer_next (x @ '' = '' @ e) = (TStr x, '' = '' @ e)"
    using assms by (intro Lexer_next_letters) (simp_all add: is_letter_def)
  then have P: "Parser (x @ '' = '' @ e) = ?p" by (simp add: Parser_def)
  have n: "Parser_next ?p = ?p1"
    by (simp add: Parser_next_def Lexer_next_def is_blank_def is_digit_def is_letter_def is_punct_def)
  have n1: "Parser_next ?p1 = Parser e"
    by (simp add: Parser_next_def Parser_def Lexer_next_blank)
  have "parse_factor ?p = Inr (Var x, ?p1)"
    using parse_factor_name[of ?p x] letters_isalpha[OF assms] n by simp
  then have "parse_assign ?p =
      (case parse_assign (Parser_next ?p1) of
         Inl err \<Rightarrow> Inl err
       | Inr (rhs, p2) \<Rightarrow> Inr (Tuple ''='' [Var x, rhs], p2))"
    using letters_isalpha[OF assms] letters_not_operator[OF assms]
    by (intro parse_assign_name_eq) auto
  then show ?thesis using P n1 by simp
qed

lemma parse_assign_paren_name_text:
  assumes "x \<noteq> []" and "\<forall>c \<in> set x. is_letter c"
  shows "parse_assign (Parser (''('' @ x @ '') = '' @ e)) =
           (case parse_assign (Parser e) of
              Inl err \<Rightarrow> Inl err
            | Inr (rhs, p2) \<Rightarrow> Inr (Tuple ''='' [Var x, rhs], p2))"
proof -
  let ?q = "\<lparr>lexer = x @ '') = '' @ e, tok = TStr ''(''\<rparr>"
  let ?p = "\<lparr>lexer = '') = '' @ e, tok = TStr x\<rparr>"
  let ?p1 = "\<lparr>lexer = '' = '' @ e, tok = TStr '')''\<rparr>"
  let ?p2 = "\<lparr>lexer = '' '' @ e, tok = TStr ''=''\<rparr>"
  have "Lexer_next (''('' @ x @ '') = '' @ e) = (TStr ''('', x @ '') = '' @ e)"
    by (simp add: Lexer_next_def is_blank_def is_digit_def is_letter_def is_punct_def)
  then have P: "Parser (''('' @ x @ '') = '' @ e) = ?q"
    by (simp add: Parser_def)
  have "Lexer_next (x @ '') = '' @ e) = (TStr x, '') = '' @ e)"
    using assms by (intro Lexer_next_letters) (simp_all add: is_letter_def)
  then have n0: "Parser_next ?q = ?p" by (simp add: Parser_next_def)
  have n: "Parser_next ?p = ?p1"
    by (simp add: Parser_next_def Lexer_next_def is_blank_def is_digit_def is_letter_def is_punct_def)
  have n1: "Parser_next ?p1 = ?p2"
    by (simp add: Parser_next_def Lexer_next_def is_blank_def is_digit_def is_letter_def is_punct_def)
  have n2: "Parser_next ?p2 = Parser e"
    by (simp add: Parser_next_def Parser_def Lexer_next_blank)
  have "parse_factor ?p = Inr (Var x, ?p1)"
    using parse_factor_name[of ?p x] letters_isalpha[OF assms] n by simp
  then have inner: "parse_assign ?p = Inr (Var x, ?p1)"
    using letters_not_operator[OF assms] by (intro parse_assign_atom) auto
  have "parse_factor ?q = Inr (Var x, ?p2)"
    using n0 inner n1
    by (subst parse_factor.simps) (simp add: isalpha_def isalpha_char_def is_letter_def)
  then have "parse_assign ?q =
      (case parse_assign (Parser_next ?p2) of
         Inl err \<Rightarrow> Inl err
       | Inr (rhs, p2) \<Rightarrow> Inr (Tuple ''='' [Var x, rhs], p2))"
    using letters_isalpha[OF assms] by (intro parse_assign_name_eq) auto
  then show ?thesis using P n2 by simp
qed

section \<open>Decimal numerals\<close>

lemma is_digit_char_of: "d < 10 \<Longrightarrow> is_digit (char_of (48 + d :: nat))"
  by (simp add: is_digit_def)

lemma of_char_digit: "d < 10 \<Longrightarrow> int (of_char (char_of (48 + d :: nat))) - 48 = int d"
  by simp

lemma int_of_str_snoc: "int_of_str (s @ [c]) = 10 * int_of_str s + (int (of_char c) - 48)"
  by (simp add: int_of_str_def)

lemma str_nat_digits: "str_nat n \<noteq> [] \<and> (\<forall>c \<in> set (str_nat n). is_digit c)"
proof (induction n rule: str_nat.induct)
  case (1 n)
  show ?case
  proof (cases "n < 10")
    case True
    then show ?thesis by (simp add: str_nat.simps[of n] is_digit_char_of)
  next
    case False
    with 1 show ?thesis by (simp add: str_nat.simps[of n] is_digit_char_of)
  qed
qed

lemma int_of_str_str_nat: "int_of_str (str_nat n) = int n"
proof (induction n rule: str_nat.induct)
  case (1 n)
  show ?case
  proof (cases "n < 10")
    case True
    then have "int_of_str (str_nat n) = int (of_char (char_of (48 + n))) - 48"
      by (simp add: str_nat.simps[of n] int_of_str_def)
    with True show ?thesis by (simp only: of_char_digit)
  next
    case False
    then have "int_of_str (str_nat n) =
        10 * int_of_str (str_nat (n div 10)) + (int (of_char (char_of (48 + n mod 10))) - 48)"
      by (simp add: str_nat.simps[of n] int_of_str_snoc)
    also have "\<dots> = 10 * int (n div 10) + int (n mod 10)"
      using 1 False by (simp only: of_char_digit[of "n mod 10"]) simp
    also have "\<dots> = int (10 * (n div 10) + n mod 10)"
      by (simp only: of_nat_add of_nat_mult of_nat_numeral)
    also have "\<dots> = int n" by simp
    finally show ?thesis .
  qed
qed

section \<open>Parsed lines\<close>

lemma parse_x: "parse (Parser ''x'') = Inr (Var ''x'')"
  by code_simp

lemma parse_x_y_3: "parse (Parser ''x = y = 3'') = Inr (Tuple ''='' [Var ''x'', Tuple ''='' [Var ''y'', Lit 3]])"
  by code_simp

lemma parse_x_5: "parse (Parser ''x = 5'') = Inr (Tuple ''='' [Var ''x'', Lit 5])"
  by code_simp

section \<open>Short-circuit evaluation of the logical operators\<close>

lemma parse_zero_and:
  "parse (Parser ''0 & (1/0)'') = Inr (Tuple ''&'' [Lit 0, Tuple ''/'' [Lit 1, Lit 0]])"
  by code_simp

lemma parse_one_or:
  "parse (Parser ''1 | (1/0)'') = Inr (Tuple ''|'' [Lit 1, Tuple ''/'' [Lit 1, Lit 0]])"
  by code_simp

text \<open>
  Claim C1. When the left operand of \<^verbatim>\<open>&\<close> evaluates to 0 the node evaluates to 0, and
  when the left operand of \<^verbatim>\<open>|\<close> evaluates to a non-zero value the node evaluates to
  that value itself; in both cases the result and \<^verbatim>\<open>VARS\<close> are those of the left
  operand alone, whatever the right operand is, so the right operand is not evaluated.
  In particular \<^verbatim>\<open>0 & (1/0)\<close> is 0 and \<^verbatim>\<open>1 | (1/0)\<close> is 1, although \<^verbatim>\<open>1/0\<close> on its
  own raises.
\<close>

theorem short_circuit:
  "(\<forall>l r vars vars1. eval l vars = (Inr 0, vars1) \<longrightarrow>
      eval (Tuple ''&'' [l, r]) vars = (Inr 0, vars1)) \<and>
   (\<forall>l r v vars vars1. eval l vars = (Inr v, vars1) \<and> v \<noteq> 0 \<longrightarrow>
      eval (Tuple ''|'' [l, r]) vars = (Inr v, vars1)) \<and>
   (\<forall>e vars. eval (Tuple ''&'' [Lit 0, e]) vars = (Inr 0, vars)) \<and>
   (\<forall>vars. eval (Tuple ''/'' [Lit 1, Lit 0]) vars = (Inl ZeroDivisionError, vars) \<and>
      calc ''0 & (1/0)'' vars = (Inr 0, vars) \<and>
      calc ''1 | (1/0)'' vars = (Inr 1, vars))"
  by (simp add: eval.simps(3) eval_binary_def calc_def parse_zero_and parse_one_or)

theorem short_circuit_witness:
  "eval (Lit 0) Map.empty = (Inr 0, Map.empty) \<and>
   eval (Tuple ''&'' [Lit 0, Tuple ''/'' [Lit 1, Lit 0]]) Map.empty = (Inr 0, Map.empty) \<and>
   eval (Lit 7) Map.empty = (Inr 7, Map.empty) \<and> (7::int) \<noteq> 0 \<and>
   eval (Tuple ''|'' [Lit 7, Tuple ''/'' [Lit 1, Lit 0]]) Map.empty = (Inr 7, Map.empty)"
proof -
  have a: "eval (Lit 0) Map.empty = (Inr 0, Map.empty)" by simp
  have b: "eval (Lit 7) Map.empty = (Inr 7, Map.empty) \<and> (7::int) \<noteq> 0" by simp
  from short_circuit a
  have "eval (Tuple ''&'' [Lit 0, Tuple ''/'' [Lit 1, Lit 0]]) Map.empty = (Inr 0, Map.empty)"
    by blast
  moreover from short_circuit b
  have "eval (Tuple ''|'' [Lit 7, Tuple ''/'' [Lit 1, Lit 0]]) Map.empty = (Inr 7, Map.empty)"
    by blast
  ultimately show ?thesis using a b by simp
qed

section \<open>Division and modulo by zero\<close>

lemma parse_one_div_zero: "parse (Parser ''1 / 0'') = Inr (Tuple ''/'' [Lit 1, Lit 0])"
  by code_simp

text \<open>
  Claim C2. When the left operand evaluates to an integer and the right operand then
  evaluates to 0, the \<^verbatim>\<open>/\<close> node and the \<^verbatim>\<open>%\<close> node raise \<^verbatim>\<open>ZeroDivisionError\<close>, with
  \<^verbatim>\<open>VARS\<close> as the operands left it. The parser accepts \<^verbatim>\<open>1 / 0\<close> and returns its
  tree; the failure comes from \<^verbatim>\<open>eval\<close> alone, and no failure of \<^verbatim>\<open>eval\<close> is ever a
  \<^verbatim>\<open>ParseError\<close>.
\<close>

theorem division_by_zero:
  "(\<forall>a b va vars vars1 vars2.
      eval a vars = (Inr va, vars1) \<and> eval b vars1 = (Inr 0, vars2) \<longrightarrow>
      eval (Tuple ''/'' [a, b]) vars = (Inl ZeroDivisionError, vars2) \<and>
      eval (Tuple ''%'' [a, b]) vars = (Inl ZeroDivisionError, vars2)) \<and>
   parse (Parser ''1 / 0'') = Inr (Tuple ''/'' [Lit 1, Lit 0]) \<and>
   (\<forall>vars. calc ''1 / 0'' vars = (Inl ZeroDivisionError, vars)) \<and>
   (\<forall>e vars err vars' msg. eval e vars = (Inl err, vars') \<longrightarrow> err \<noteq> ParseError msg)"
  using eval_not_ParseError
  by (simp add: eval.simps(3) eval_binary_def calc_def parse_one_div_zero)

theorem division_by_zero_witness:
  "eval (Lit 1) Map.empty = (Inr 1, Map.empty) \<and>
   eval (Lit 0) Map.empty = (Inr 0, Map.empty) \<and>
   eval (Tuple ''/'' [Lit 1, Lit 0]) Map.empty = (Inl ZeroDivisionError, Map.empty) \<and>
   eval (Tuple ''%'' [Lit 1, Lit 0]) Map.empty = (Inl ZeroDivisionError, Map.empty) \<and>
   ZeroDivisionError \<noteq> ParseError ''extraneous input''"
proof -
  have h: "eval (Lit 1) Map.empty = (Inr 1, Map.empty) \<and>
           eval (Lit 0) Map.empty = (Inr 0, Map.empty)"
    by simp
  have d: "eval (Tuple ''/'' [Lit 1, Lit 0]) Map.empty = (Inl ZeroDivisionError, Map.empty) \<and>
        eval (Tuple ''%'' [Lit 1, Lit 0]) Map.empty = (Inl ZeroDivisionError, Map.empty)"
    using h by (rule division_by_zero[THEN conjunct1, rule_format])
  then have "eval (Tuple ''/'' [Lit 1, Lit 0]) Map.empty = (Inl ZeroDivisionError, Map.empty)"
    by (rule conjunct1)
  then have "ZeroDivisionError \<noteq> ParseError ''extraneous input''"
    by (rule division_by_zero[THEN conjunct2, THEN conjunct2, THEN conjunct2, rule_format])
  with h d show ?thesis by simp
qed

section \<open>Assignment\<close>

text \<open>
  Claim C3. For every non-empty string of digits \<open>ds\<close>, the line \<^verbatim>\<open>x = ds\<close> parses to
  an assignment node, evaluates to the value of the literal and stores it under \<^verbatim>\<open>x\<close>,
  and the line \<^verbatim>\<open>x\<close> then evaluates to that value; in particular this holds for the
  decimal numeral of every natural number \<open>n\<close>, with value \<open>n\<close>. The line
  \<^verbatim>\<open>x = y = 3\<close> parses as \<^verbatim>\<open>x = (y = 3)\<close>, evaluates to 3 and stores 3 under both
  names. (\<^verbatim>\<open>int\<close> is taken without the interpreter's limit on the number of digits.)
\<close>

theorem assignment_returns_and_stores:
  "(\<forall>ds vars. ds \<noteq> [] \<and> (\<forall>c \<in> set ds. is_digit c) \<longrightarrow>
      parse (Parser (''x = '' @ ds)) = Inr (Tuple ''='' [Var ''x'', Lit (int_of_str ds)]) \<and>
      calc (''x = '' @ ds) vars = (Inr (int_of_str ds), vars(Var ''x'' \<mapsto> int_of_str ds)) \<and>
      calc ''x'' (vars(Var ''x'' \<mapsto> int_of_str ds)) =
        (Inr (int_of_str ds), vars(Var ''x'' \<mapsto> int_of_str ds))) \<and>
   (\<forall>n vars.
      calc (''x = '' @ str_nat n) vars = (Inr (int n), vars(Var ''x'' \<mapsto> int n)) \<and>
      calc ''x'' (vars(Var ''x'' \<mapsto> int n)) = (Inr (int n), vars(Var ''x'' \<mapsto> int n))) \<and>
   (\<forall>vars.
      calc ''x = 5'' vars = (Inr 5, vars(Var ''x'' \<mapsto> 5)) \<and>
      calc ''x'' (vars(Var ''x'' \<mapsto> 5)) = (Inr 5, vars(Var ''x'' \<mapsto> 5))) \<and>
   parse (Parser ''x = y = 3'') =
     Inr (Tuple ''='' [Var ''x'', Tuple ''='' [Var ''y'', Lit 3]]) \<and>
   (\<forall>vars. calc ''x = y = 3'' vars = (Inr 3, vars(Var ''y'' \<mapsto> 3, Var ''x'' \<mapsto> 3)))"
proof -
  have lit: "parse (Parser (''x = '' @ ds)) = Inr (Tuple ''='' [Var ''x'', Lit (int_of_str ds)]) \<and>
      calc (''x = '' @ ds) vars = (Inr (int_of_str ds), vars(Var ''x'' \<mapsto> int_of_str ds)) \<and>
      calc ''x'' (vars(Var ''x'' \<mapsto> int_of_str ds)) =
        (Inr (int_of_str ds), vars(Var ''x'' \<mapsto> int_of_str ds))"
    if "ds \<noteq> []" "\<forall>c \<in> set ds. is_digit c" for ds vars
    using parse_x_assign_literal[OF that] parse_x
    by (simp add: calc_def eval.simps(3))
  have nat: "calc (''x = '' @ str_nat n) vars = (Inr (int n), vars(Var ''x'' \<mapsto> int n)) \<and>
      calc ''x'' (vars(Var ''x'' \<mapsto> int n)) = (Inr (int n), vars(Var ''x'' \<mapsto> int n))"
    for n vars
    using lit[of "str_nat n" vars] str_nat_digits[of n] by (simp add: int_of_str_str_nat)
  have five: "calc ''x = 5'' vars = (Inr 5, vars(Var ''x'' \<mapsto> 5)) \<and>
      calc ''x'' (vars(Var ''x'' \<mapsto> 5)) = (Inr 5, vars(Var ''x'' \<mapsto> 5))" for vars
    using parse_x_5 parse_x by (simp add: calc_def eval.simps(3))
  have chain: "calc ''x = y = 3'' vars = (Inr 3, vars(Var ''y'' \<mapsto> 3, Var ''x'' \<mapsto> 3))" for vars
    using parse_x_y_3 by (simp add: calc_def eval.simps(3))
  from lit nat five chain parse_x_y_3 show ?thesis by blast
qed

theorem assignment_returns_and_stores_witness:
  "''42'' \<noteq> [] \<and> list_all is_digit ''42'' \<and>
   parse (Parser ''x = 42'') = Inr (Tuple ''='' [Var ''x'', Lit 42]) \<and>
   calc ''x = 42'' Map.empty = (Inr 42, [Var ''x'' \<mapsto> 42]) \<and>
   calc ''x'' [Var ''x'' \<mapsto> 42] = (Inr 42, [Var ''x'' \<mapsto> 42])"
proof -
  have h: "''42'' \<noteq> [] \<and> (\<forall>c \<in> set ''42''. is_digit c)"
    by (simp add: is_digit_def)
  have v: "int_of_str ''42'' = 42" by (simp add: int_of_str_def)
  from assignment_returns_and_stores h
  have "parse (Parser (''x = '' @ ''42'')) = Inr (Tuple ''='' [Var ''x'', Lit (int_of_str ''42'')]) \<and>
      calc (''x = '' @ ''42'') Map.empty =
        (Inr (int_of_str ''42''), [Var ''x'' \<mapsto> int_of_str ''42'']) \<and>
      calc ''x'' [Var ''x'' \<mapsto> int_of_str ''42''] =
        (Inr (int_of_str ''42''), [Var ''x'' \<mapsto> int_of_str ''42''])"
    by blast
  with h v show ?thesis by (simp add: list_all_iff)
qed

section \<open>Assignments before a failure\<close>




section \<open>Precedence of the multiplicative operators\<close>




section \<open>Exponentiation\<close>

lemma parse_pow_pow: "parse (Parser ''2 ^ 3 ^ 2'') = Inr (Tuple ''^'' [Lit 2, Tuple ''^'' [Lit 3, Lit 2]])"
  by code_simp

text \<open>
  Claim C7. \<^verbatim>\<open>2 ^ 3 ^ 2\<close> parses as \<^verbatim>\<open>2 ^ (3 ^ 2)\<close> and evaluates to 512, and a \<^verbatim>\<open>^\<close>
  node whose right operand evaluates to a non-negative integer evaluates to the
  integer power of its operands' values.
\<close>

theorem power_right_assoc:
  "parse (Parser ''2 ^ 3 ^ 2'') = Inr (Tuple ''^'' [Lit 2, Tuple ''^'' [Lit 3, Lit 2]]) \<and>
   (\<forall>vars. calc ''2 ^ 3 ^ 2'' vars = (Inr 512, vars)) \<and>
   (512 :: int) = 2 ^ (3 ^ 2) \<and>
   (\<forall>l r a b vars vars1 vars2.
      eval l vars = (Inr a, vars1) \<and> eval r vars1 = (Inr b, vars2) \<and> 0 \<le> b \<longrightarrow>
      eval (Tuple ''^'' [l, r]) vars = (Inr (a ^ nat b), vars2))"
  by (simp add: eval.simps(3) eval_binary_def calc_def parse_pow_pow)

theorem power_right_assoc_witness:
  "eval (Lit 3) Map.empty = (Inr 3, Map.empty) \<and>
   eval (Lit 2) Map.empty = (Inr 2, Map.empty) \<and> (0::int) \<le> 2 \<and>
   eval (Tuple ''^'' [Lit 3, Lit 2]) Map.empty = (Inr 9, Map.empty)"
proof -
  have h: "eval (Lit 3) Map.empty = (Inr 3, Map.empty) \<and>
     eval (Lit 2) Map.empty = (Inr 2, Map.empty) \<and> (0::int) \<le> 2"
    by simp
  from power_right_assoc h
  have "eval (Tuple ''^'' [Lit 3, Lit 2]) Map.empty = (Inr (3 ^ nat 2), Map.empty)"
    by blast
  with h show ?thesis by simp
qed

section \<open>Division and modulo\<close>

text \<open>
  Claim C8. When the operands evaluate to \<open>a\<close> and to a non-zero \<open>b\<close>, the \<^verbatim>\<open>/\<close> node
  evaluates to the floor of the quotient \<open>a / b\<close>, and the \<^verbatim>\<open>%\<close> node to a remainder
  that has the sign of \<open>b\<close>, is smaller than \<open>b\<close> in absolute value and satisfies
  \<open>a = b * (a / b) + (a % b)\<close>.
\<close>

theorem floor_division:
  "\<forall>l r a b vars vars1 vars2.
      eval l vars = (Inr a, vars1) \<and> eval r vars1 = (Inr b, vars2) \<and> b \<noteq> 0 \<longrightarrow>
      eval (Tuple ''/'' [l, r]) vars = (Inr \<lfloor>real_of_int a / real_of_int b\<rfloor>, vars2) \<and>
      (\<exists>q m. eval (Tuple ''/'' [l, r]) vars = (Inr q, vars2) \<and>
             eval (Tuple ''%'' [l, r]) vars = (Inr m, vars2) \<and>
             a = b * q + m \<and>
             (0 < b \<longrightarrow> 0 \<le> m \<and> m < b) \<and>
             (b < 0 \<longrightarrow> b < m \<and> m \<le> 0))"
  by (simp add: eval.simps(3) eval_binary_def floor_divide_of_int_eq)

theorem floor_division_witness:
  "eval (Lit (- 7)) Map.empty = (Inr (- 7), Map.empty) \<and>
   eval (Lit 2) Map.empty = (Inr 2, Map.empty) \<and> (2::int) \<noteq> 0 \<and>
   eval (Tuple ''/'' [Lit (- 7), Lit 2]) Map.empty = (Inr (- 4), Map.empty) \<and>
   eval (Tuple ''%'' [Lit (- 7), Lit 2]) Map.empty = (Inr 1, Map.empty) \<and>
   eval (Lit 7) Map.empty = (Inr 7, Map.empty) \<and>
   eval (Lit (- 2)) Map.empty = (Inr (- 2), Map.empty) \<and> (- 2::int) \<noteq> 0 \<and>
   eval (Tuple ''/'' [Lit 7, Lit (- 2)]) Map.empty = (Inr (- 4), Map.empty) \<and>
   eval (Tuple ''%'' [Lit 7, Lit (- 2)]) Map.empty = (Inr (- 1), Map.empty)"
proof -
  have h: "eval (Lit (- 7)) Map.empty = (Inr (- 7), Map.empty) \<and>
     eval (Lit 2) Map.empty = (Inr 2, Map.empty) \<and> (2::int) \<noteq> 0"
    by simp
  have g: "eval (Lit 7) Map.empty = (Inr 7, Map.empty) \<and>
     eval (Lit (- 2)) Map.empty = (Inr (- 2), Map.empty) \<and> (- 2::int) \<noteq> 0"
    by simp
  have "eval (Tuple ''/'' [Lit (- 7), Lit 2]) Map.empty =
          (Inr \<lfloor>real_of_int (- 7) / real_of_int 2\<rfloor>, Map.empty)"
    using h by (rule floor_division[rule_format, THEN conjunct1])
  moreover have "\<lfloor>real_of_int (- 7) / real_of_int 2\<rfloor> = - 4"
    by (simp add: floor_divide_of_int_eq[of "- 7" 2, simplified])
  moreover have "eval (Tuple ''/'' [Lit 7, Lit (- 2)]) Map.empty =
          (Inr \<lfloor>real_of_int 7 / real_of_int (- 2)\<rfloor>, Map.empty)"
    using g by (rule floor_division[rule_format, THEN conjunct1])
  moreover have "\<lfloor>real_of_int 7 / real_of_int (- 2)\<rfloor> = - 4"
    by (simp add: floor_divide_of_int_eq[of 7 "- 2", simplified])
  ultimately show ?thesis using h g by (simp add: eval.simps(3) eval_binary_def)
qed

section \<open>Unset variables\<close>

text \<open>
  Claim C9. A variable reference whose name is not a key of \<^verbatim>\<open>VARS\<close> evaluates to 0
  and leaves \<^verbatim>\<open>VARS\<close> unchanged; every non-empty string of letters parses to such a
  reference, so the line evaluates to 0; and \<^verbatim>\<open>x\<close> evaluates to 0 in the empty
  dictionary.
\<close>

theorem unset_variable_zero:
  "(\<forall>x vars. vars (Var x) = None \<longrightarrow> eval (Var x) vars = (Inr 0, vars)) \<and>
   (\<forall>x vars. x \<noteq> [] \<and> (\<forall>c \<in> set x. is_letter c) \<and> vars (Var x) = None \<longrightarrow>
      parse (Parser x) = Inr (Var x) \<and> calc x vars = (Inr 0, vars)) \<and>
   calc ''x'' Map.empty = (Inr 0, Map.empty)"
proof (intro conjI allI impI)
  fix x and vars :: vars
  assume "vars (Var x) = None"
  then show "eval (Var x) vars = (Inr 0, vars)" by simp
next
  fix x and vars :: vars
  assume h: "x \<noteq> [] \<and> (\<forall>c \<in> set x. is_letter c) \<and> vars (Var x) = None"
  then show "parse (Parser x) = Inr (Var x)" by (simp add: parse_identifier)
  with h show "calc x vars = (Inr 0, vars)" by (simp add: calc_def)
next
  show "calc ''x'' Map.empty = (Inr 0, Map.empty)"
    using parse_x by (simp add: calc_def)
qed

theorem unset_variable_zero_witness:
  "''total'' \<noteq> [] \<and> list_all is_letter ''total'' \<and> Map.empty (Var ''total'') = None \<and>
   parse (Parser ''total'') = Inr (Var ''total'') \<and>
   calc ''total'' Map.empty = (Inr 0, Map.empty) \<and>
   eval (Var ''total'') Map.empty = (Inr 0, Map.empty)"
proof -
  have h: "''total'' \<noteq> [] \<and> (\<forall>c \<in> set ''total''. is_letter c) \<and>
     Map.empty (Var ''total'') = None"
    by (simp add: is_letter_def)
  have l: "list_all is_letter ''total''"
    by (simp add: is_letter_def)
  have "parse (Parser ''total'') = Inr (Var ''total'') \<and>
     calc ''total'' Map.empty = (Inr 0, Map.empty)"
    using h by (rule unset_variable_zero[THEN conjunct2, THEN conjunct1, rule_format])
  moreover have "eval (Var ''total'') Map.empty = (Inr 0, Map.empty)"
    by (rule unset_variable_zero[THEN conjunct1, rule_format]) simp
  ultimately show ?thesis using l by simp
qed

section \<open>A parenthesised assignment target\<close>

lemma parse_two: "parse (Parser ''2'') = Inr (Lit 2)"
  by code_simp

text \<open>
  Claim C10. For every identifier \<open>x\<close> and every text \<open>e\<close>, parsing \<^verbatim>\<open>(x) = e\<close> gives
  exactly what parsing \<^verbatim>\<open>x = e\<close> gives, and when \<open>e\<close> parses to a tree \<open>rhs\<close> both give
  the assignment node of \<open>x\<close> and \<open>rhs\<close>.
\<close>

theorem paren_identifier_assign:
  "\<forall>x e. x \<noteq> [] \<and> (\<forall>c \<in> set x. is_letter c) \<longrightarrow>
     parse (Parser (''('' @ x @ '') = '' @ e)) = parse (Parser (x @ '' = '' @ e)) \<and>
     (\<forall>rhs. parse (Parser e) = Inr rhs \<longrightarrow>
        parse (Parser (''('' @ x @ '') = '' @ e)) = Inr (Tuple ''='' [Var x, rhs]) \<and>
        parse (Parser (x @ '' = '' @ e)) = Inr (Tuple ''='' [Var x, rhs]))"
proof (intro allI impI)
  fix x e
  assume "x \<noteq> [] \<and> (\<forall>c \<in> set x. is_letter c)"
  then have x: "x \<noteq> []" "\<forall>c \<in> set x. is_letter c" by auto
  have eq: "parse (Parser (''('' @ x @ '') = '' @ e)) = parse (Parser (x @ '' = '' @ e))"
    by (simp only: parse_def parse_assign_paren_name_text[OF x] parse_assign_name_text[OF x])
  have "parse (Parser (x @ '' = '' @ e)) = Inr (Tuple ''='' [Var x, rhs])"
    if "parse (Parser e) = Inr rhs" for rhs
    using that
    by (simp only: parse_def parse_assign_name_text[OF x])
       (auto simp: Parser_error_def split: sum.splits prod.splits if_splits)
  with eq show "parse (Parser (''('' @ x @ '') = '' @ e)) = parse (Parser (x @ '' = '' @ e)) \<and>
     (\<forall>rhs. parse (Parser e) = Inr rhs \<longrightarrow>
        parse (Parser (''('' @ x @ '') = '' @ e)) = Inr (Tuple ''='' [Var x, rhs]) \<and>
        parse (Parser (x @ '' = '' @ e)) = Inr (Tuple ''='' [Var x, rhs]))"
    by simp
qed

theorem paren_identifier_assign_witness:
  "''y'' \<noteq> [] \<and> list_all is_letter ''y'' \<and> parse (Parser ''2'') = Inr (Lit 2) \<and>
   parse (Parser ''(y) = 2'') = Inr (Tuple ''='' [Var ''y'', Lit 2]) \<and>
   parse (Parser ''y = 2'') = Inr (Tuple ''='' [Var ''y'', Lit 2])"
proof -
  have h: "''y'' \<noteq> [] \<and> (\<forall>c \<in> set ''y''. is_letter c)"
    by (simp add: is_letter_def)
  from paren_identifier_assign h parse_two
  have "parse (Parser (''('' @ ''y'' @ '') = '' @ ''2'')) = Inr (Tuple ''='' [Var ''y'', Lit 2]) \<and>
        parse (Parser (''y'' @ '' = '' @ ''2'')) = Inr (Tuple ''='' [Var ''y'', Lit 2])"
    by blast
  with h parse_two show ?thesis by (simp add: list_all_iff)
qed

section \<open>Unrecognized characters\<close>

lemma ahead_Cons: "ahead c (d # s) \<longleftrightarrow> d \<noteq> CHR 0x0A \<and> (c = d \<or> ahead c s)"
  by (auto simp: ahead_def)

lemma ahead_Nil: "\<not> ahead c []"
  by (simp add: ahead_def)

lemma ahead_dropWhile:
  "ahead c s \<Longrightarrow> \<not> P c \<Longrightarrow> ahead c (dropWhile P s)"
  by (induction s) (auto simp: ahead_Cons)

lemma Lexer_next_unrecognized:
  assumes "unrecognized c" and "c \<noteq> CHR 0x0A"
  shows "Lexer_next (c # s) = (error_token c, s)"
  using assms
  by (auto simp: Lexer_next_def unrecognized_def error_token_def is_punct_def)

lemma error_token_distinct:
  "error_token c \<noteq> TStr ''$'' \<and> error_token c \<noteq> TInt n \<and>
   (\<forall>s. isalpha s \<longrightarrow> error_token c \<noteq> TStr s) \<and>
   (\<forall>s. (\<exists>d. is_punct d \<and> s = [d]) \<or> s \<in> set [''=='', ''!='', ''<='', ''>=''] \<longrightarrow>
      error_token c \<noteq> TStr s)"
  by (auto simp: error_token_def isalpha_def isalpha_char_def is_letter_def is_punct_def)

lemma Lexer_next_ahead:
  assumes u: "unrecognized c" and a: "ahead c s" and l: "Lexer_next s = (t, rest)"
  shows "t \<noteq> TStr ''$'' \<and> (t = error_token c \<or> ahead c rest)"
proof -
  from u have nb: "\<not> is_blank c" "\<not> is_digit c" "\<not> is_letter c" "\<not> is_punct c"
    by (simp_all add: unrecognized_def)
  have a': "ahead c (dropWhile is_blank s)"
    using a nb(1) by (rule ahead_dropWhile)
  then obtain d ds where s': "dropWhile is_blank s = d # ds"
    by (cases "dropWhile is_blank s") (auto simp: ahead_Nil)
  from a' s' have d: "d \<noteq> CHR 0x0A" and cd: "c = d \<or> ahead c ds"
    by (simp_all add: ahead_Cons)
  have dig: "ahead c (dropWhile is_digit (d # ds))"
    using a' nb(2) unfolding s' by (rule ahead_dropWhile)
  have ltr: "ahead c (dropWhile is_letter (d # ds))"
    using a' nb(3) unfolding s' by (rule ahead_dropWhile)
  have two: "ahead c (drop 2 (d # ds))" if "is_punct d" "case ds of [] \<Rightarrow> False | x # _ \<Rightarrow> x = CHR ''=''"
    using that cd nb(4) by (cases ds) (auto simp: ahead_Cons is_punct_def)
  have p: "d \<in> set ''=!<>'' \<Longrightarrow> is_punct d" by (auto simp: is_punct_def)
  have ld: "is_letter d \<Longrightarrow> d \<noteq> CHR ''$''" by (auto simp: is_letter_def)
  have pd: "is_punct d \<Longrightarrow> d \<noteq> CHR ''$''" by (auto simp: is_punct_def)
  show ?thesis
  proof (cases "d \<in> set ''=!<>'' \<and> (case ds of [] \<Rightarrow> False | x # _ \<Rightarrow> x = CHR ''='')")
    case True
    then have "t = TStr (take 2 (d # ds))" "rest = drop 2 (d # ds)"
      using l by (auto simp: Lexer_next_def Let_def s')
    moreover have "take 2 (d # ds) \<noteq> ''$''" using True by (cases ds) auto
    ultimately show ?thesis using two p True by simp
  next
    case False
    note nt = this
    show ?thesis
    proof (cases "is_digit d")
      case True
      then have "t = TInt (int_of_str (takeWhile is_digit (d # ds)))" "rest = dropWhile is_digit (d # ds)"
        using l nt by (auto simp: Lexer_next_def Let_def s')
      then show ?thesis using dig by simp
    next
      case False
      note nd = this
      show ?thesis
      proof (cases "is_letter d")
        case True
        then have "t = TStr (takeWhile is_letter (d # ds))" "rest = dropWhile is_letter (d # ds)"
          using l nt nd by (auto simp: Lexer_next_def Let_def s')
        then show ?thesis using ltr True ld by simp
      next
        case False
        note nl = this
        show ?thesis
        proof (cases "is_punct d")
          case True
          then have "t = TStr [d]" "rest = ds"
            using l nt nd nl by (auto simp: Lexer_next_def Let_def s')
          moreover have "c \<noteq> d" using True nb(4) by auto
          ultimately show ?thesis using cd pd True by simp
        next
          case False
          then have "t = error_token d" "rest = ds"
            using l nt nd nl d by (auto simp: Lexer_next_def Let_def s')
          then show ?thesis using cd by (auto simp: error_token_def)
        qed
      qed
    qed
  qed
qed

lemma blocked_Parser:
  "unrecognized c \<Longrightarrow> ahead c s \<Longrightarrow> blocked c (Parser s)"
  using Lexer_next_ahead[of c s]
  by (cases "Lexer_next s") (simp add: blocked_def Parser_def)

lemma blocked_next:
  "unrecognized c \<Longrightarrow> blocked c p \<Longrightarrow> tok p \<noteq> error_token c \<Longrightarrow> blocked c (Parser_next p)"
  using Lexer_next_ahead[of c "lexer p"]
  by (cases "Lexer_next (lexer p)") (simp add: blocked_def Parser_next_def)

lemma isalpha_hd: "isalpha s \<Longrightarrow> hd s \<noteq> CHR ''#''"
  by (cases s) (auto simp: isalpha_def isalpha_char_def is_letter_def)

lemma blocked_next_token:
  "unrecognized c \<Longrightarrow> blocked c p \<Longrightarrow>
     (case tok p of TInt _ \<Rightarrow> True | TStr s \<Rightarrow> hd s \<noteq> CHR ''#'') \<Longrightarrow>
     blocked c (Parser_next p)"
  by (rule blocked_next) (auto simp: error_token_def split: token.splits)

lemma loop_blocked:
  assumes eq: "loop a p =
      (case tok p of
         TInt _ \<Rightarrow> Inr (a, p)
       | TStr op \<Rightarrow>
           if op \<in> set ops
           then (case sub (Parser_next p) of
                   Inl err \<Rightarrow> Inl err
                 | Inr (right, p1) \<Rightarrow> loop (Tuple op [a, right]) p1)
           else Inr (a, p))"
    and u: "unrecognized c"
    and ops: "\<forall>op \<in> set ops. hd op \<noteq> CHR ''#''"
    and ih1: "\<And>x2. tok p = TStr x2 \<Longrightarrow> x2 \<in> set ops \<Longrightarrow>
               blocked c (Parser_next p) \<longrightarrow> fails_or_blocked c (sub (Parser_next p))"
    and ih2: "\<And>x2 x y. tok p = TStr x2 \<Longrightarrow> x2 \<in> set ops \<Longrightarrow>
               sub (Parser_next p) = Inr (x, y) \<Longrightarrow>
               blocked c y \<longrightarrow> fails_or_blocked c (loop (Tuple x2 [a, x]) y)"
  shows "blocked c p \<longrightarrow> fails_or_blocked c (loop a p)"
proof
  assume b: "blocked c p"
  show "fails_or_blocked c (loop a p)"
  proof (cases "tok p")
    case (TInt n)
    with b show ?thesis by (simp add: eq fails_or_blocked_def)
  next
    case t: (TStr op)
    show ?thesis
    proof (cases "op \<in> set ops")
      case False
      with t b show ?thesis by (simp add: eq fails_or_blocked_def)
    next
      case True
      with ops have "hd op \<noteq> CHR ''#''" by simp
      with u b t have "blocked c (Parser_next p)" by (simp add: blocked_next_token)
      with ih1[OF t True] have s: "fails_or_blocked c (sub (Parser_next p))" by simp
      show ?thesis
      proof (cases "sub (Parser_next p)")
        case l: (Inl err)
        with s t True show ?thesis by (simp add: eq)
      next
        case r: (Inr r1)
        obtain x y where r1: "r1 = (x, y)" by (cases r1)
        from r r1 have sx: "sub (Parser_next p) = Inr (x, y)" by simp
        with s have "blocked c y" by (simp add: fails_or_blocked_def)
        with ih2[OF t True sx] have "fails_or_blocked c (loop (Tuple op [a, x]) y)" by simp
        with t True sx show ?thesis by (simp add: eq)
      qed
    qed
  qed
qed

lemma parse_blocked:
  assumes u: "unrecognized c"
  shows
    "blocked c p \<longrightarrow> fails_or_blocked c (parse_assign p)"
    "blocked c p \<longrightarrow> fails_or_blocked c (parse_ternary p)"
    "blocked c p \<longrightarrow> fails_or_blocked c (parse_or p)"
    "blocked c p \<longrightarrow> fails_or_blocked c (parse_and p)"
    "blocked c p \<longrightarrow> fails_or_blocked c (parse_not p)"
    "blocked c p \<longrightarrow> fails_or_blocked c (parse_compare p)"
    "blocked c p \<longrightarrow> fails_or_blocked c (compare_loop a p)"
    "blocked c p \<longrightarrow> fails_or_blocked c (parse_add p)"
    "blocked c p \<longrightarrow> fails_or_blocked c (add_loop a p)"
    "blocked c p \<longrightarrow> fails_or_blocked c (parse_mul p)"
    "blocked c p \<longrightarrow> fails_or_blocked c (mul_loop a p)"
    "blocked c p \<longrightarrow> fails_or_blocked c (parse_unary p)"
    "blocked c p \<longrightarrow> fails_or_blocked c (parse_pow p)"
    "blocked c p \<longrightarrow> fails_or_blocked c (parse_factor p)"
proof (induct p and p and p and p and p and p and a p and p and a p and p and a p and p and p and p
    rule: parse_assign_parse_ternary_parse_or_parse_and_parse_not_parse_compare_compare_loop_parse_add_add_loop_parse_mul_mul_loop_parse_unary_parse_pow_parse_factor.induct)
  case (1 p)
  show ?case
    using 1(1) 1(2)[OF _ refl] u
    by (subst parse_assign.simps)
       (auto simp: fails_or_blocked_def Parser_error_def blocked_next_token isalpha_hd
             split: sum.splits prod.splits if_splits token.splits exn.splits)
next
  case (2 p)
  show ?case
  proof
    assume b: "blocked c p"
    with 2(1) have o: "fails_or_blocked c (parse_or p)" by simp
    show "fails_or_blocked c (parse_ternary p)"
    proof (cases "parse_or p")
      case l: (Inl err)
      with o show ?thesis by (simp add: parse_ternary.simps[of p])
    next
      case r: (Inr r1)
      obtain e p1 where r1: "r1 = (e, p1)" by (cases r1)
      from r r1 have por: "parse_or p = Inr (e, p1)" by simp
      with o have b1: "blocked c p1" by (simp add: fails_or_blocked_def)
      show ?thesis
      proof (cases "tok p1 = TStr ''?''")
        case False
        with por b1 show ?thesis
          by (simp add: parse_ternary.simps[of p] fails_or_blocked_def)
      next
        case q: True
        have "blocked c (Parser_next p1)"
          using u b1 q by (simp add: blocked_next_token)
        with 2(2)[OF por refl q]
        have t: "fails_or_blocked c (parse_assign (Parser_next p1))" by simp
        show ?thesis
        proof (cases "parse_assign (Parser_next p1)")
          case l2: (Inl err)
          with t por q show ?thesis by (simp add: parse_ternary.simps[of p])
        next
          case r2: (Inr r3)
          obtain tb p2 where r3: "r3 = (tb, p2)" by (cases r3)
          from r2 r3 have pt: "parse_assign (Parser_next p1) = Inr (tb, p2)" by simp
          with t have b2: "blocked c p2" by (simp add: fails_or_blocked_def)
          show ?thesis
          proof (cases "tok p2 = TStr '':''")
            case False
            with por q pt show ?thesis
              by (simp add: parse_ternary.simps[of p] fails_or_blocked_def Parser_error_def)
          next
            case c: True
            have "blocked c (Parser_next p2)"
              using u b2 c by (simp add: blocked_next_token)
            moreover have "\<not> tok p2 \<noteq> TStr '':''" using c by simp
            ultimately have f: "fails_or_blocked c (parse_assign (Parser_next p2))"
              using 2(3)[OF por refl q pt refl] by simp
            show ?thesis
            proof (cases "parse_assign (Parser_next p2)")
              case l3: (Inl err)
              with f por q pt c show ?thesis by (simp add: parse_ternary.simps[of p])
            next
              case r4: (Inr r5)
              with f por q pt c show ?thesis
                by (cases r5) (simp add: parse_ternary.simps[of p] fails_or_blocked_def)
            qed
          qed
        qed
      qed
    qed
  qed
next
  case (3 p)
  show ?case
    using 3(1) 3(2)[OF _ refl] u
    by (subst parse_or.simps)
       (auto simp: fails_or_blocked_def Parser_error_def blocked_next_token isalpha_hd
             split: sum.splits prod.splits if_splits token.splits exn.splits)
next
  case (4 p)
  show ?case
    using 4(1) 4(2)[OF _ refl] u
    by (subst parse_and.simps)
       (auto simp: fails_or_blocked_def Parser_error_def blocked_next_token isalpha_hd
             split: sum.splits prod.splits if_splits token.splits exn.splits)
next
  case (5 p)
  show ?case
    using 5 u
    by (subst parse_not.simps)
       (auto simp: fails_or_blocked_def Parser_error_def blocked_next_token isalpha_hd
             split: sum.splits prod.splits if_splits token.splits exn.splits)
next
  case (6 p)
  show ?case
    using 6(1) 6(2)[OF _ refl] u
    by (subst parse_compare.simps)
       (auto simp: fails_or_blocked_def Parser_error_def blocked_next_token isalpha_hd
             split: sum.splits prod.splits if_splits token.splits exn.splits)
next
  case (7 a p)
  show ?case
    by (rule loop_blocked[where loop = compare_loop and sub = parse_add and ops = "[''=='', ''!='', ''<'', ''<='', ''>'', ''>='']",
          OF compare_loop.simps u _ 7(1) 7(2)[OF _ _ _ refl]])
       simp_all
next
  case (8 p)
  show ?case
    using 8(1) 8(2)[OF _ refl] u
    by (subst parse_add.simps)
       (auto simp: fails_or_blocked_def Parser_error_def blocked_next_token isalpha_hd
             split: sum.splits prod.splits if_splits token.splits exn.splits)
next
  case (9 a p)
  show ?case
    by (rule loop_blocked[where loop = add_loop and sub = parse_mul and ops = "[''+'', ''-'']",
          OF add_loop.simps u _ 9(1) 9(2)[OF _ _ _ refl]])
       simp_all
next
  case (10 p)
  show ?case
    using 10(1) 10(2)[OF _ refl] u
    by (subst parse_mul.simps)
       (auto simp: fails_or_blocked_def Parser_error_def blocked_next_token isalpha_hd
             split: sum.splits prod.splits if_splits token.splits exn.splits)
next
  case (11 a p)
  show ?case
    by (rule loop_blocked[where loop = mul_loop and sub = parse_unary and ops = "[''*'', ''/'', ''%'']",
          OF mul_loop.simps u _ 11(1) 11(2)[OF _ _ _ refl]])
       simp_all
next
  case (12 p)
  show ?case
    using 12 u
    by (subst parse_unary.simps)
       (auto simp: fails_or_blocked_def Parser_error_def blocked_next_token isalpha_hd
             split: sum.splits prod.splits if_splits token.splits exn.splits)
next
  case (13 p)
  show ?case
    using 13(1) 13(2)[OF _ refl] u
    by (subst parse_pow.simps)
       (auto simp: fails_or_blocked_def Parser_error_def blocked_next_token isalpha_hd
             split: sum.splits prod.splits if_splits token.splits exn.splits)
next
  case (14 p)
  show ?case
    using 14 u
    by (subst parse_factor.simps)
       (auto simp: fails_or_blocked_def Parser_error_def blocked_next_token isalpha_hd
             split: sum.splits prod.splits if_splits token.splits exn.splits)
qed

lemma unrecognized_ahead_ParseError:
  assumes u: "unrecognized c" and a: "ahead c s"
  shows "\<exists>msg. parse (Parser s) = Inl (ParseError msg)"
proof -
  have b: "blocked c (Parser s)" using u a by (rule blocked_Parser)
  with parse_blocked(1)[OF u, of "Parser s"]
  have f: "fails_or_blocked c (parse_assign (Parser s))" by simp
  show ?thesis
  proof (cases "parse_assign (Parser s)")
    case (Inl err)
    with f show ?thesis by (cases err) (simp_all add: fails_or_blocked_def parse_def)
  next
    case (Inr r)
    obtain e p where r: "r = (e, p)" by (cases r)
    with f Inr have "tok p \<noteq> TStr ''$''" by (simp add: fails_or_blocked_def blocked_def)
    with Inr r show ?thesis by (simp add: parse_def Parser_error_def)
  qed
qed

lemma ahead_append:
  "c \<noteq> CHR 0x0A \<Longrightarrow> CHR 0x0A \<notin> set pre \<Longrightarrow> ahead c (pre @ c # post)"
  by (induction pre) (auto simp: ahead_Cons)

lemma unrecognized_ParseError:
  assumes "unrecognized c" and "c \<noteq> CHR 0x0A" and "CHR 0x0A \<notin> set pre"
  shows "\<exists>msg. parse (Parser (pre @ c # post)) = Inl (ParseError msg)"
  using assms(1) ahead_append[OF assms(2,3)] by (rule unrecognized_ahead_ParseError)

lemma unrecognized_examples:
  "unrecognized CHR ''#'' \<and> unrecognized CHR ''$'' \<and> unrecognized CHR ''.'' \<and>
   unrecognized CHR 0x0A"
  by (simp add: unrecognized_def is_blank_def is_digit_def is_letter_def is_punct_def)

lemma parse_newline_hash: "parse (Parser (''1'' @ [CHR 0x0A] @ ''#'')) = Inr (Lit 1)"
  by code_simp

lemma parse_one_hash:
  "parse (Parser ''1 #'') = Inl (ParseError ''extraneous input [next token: #35]'')"
  by code_simp

lemma Lexer_next_hash: "Lexer_next ''#'' = (TStr ''#35'', [])"
  by code_simp

lemma Lexer_next_newline: "Lexer_next (CHR 0x0A # s) = (TStr ''$'', CHR 0x0A # s)"
  by (simp add: Lexer_next_def is_blank_def is_digit_def is_letter_def is_punct_def)

text \<open>
  Claim C4. The claim does not hold at a newline. A newline is a character that none of
  the rules for blanks, digits, letters and punctuation matches, but the last rule does
  not match it either: \<^verbatim>\<open>Lexer.next\<close> returns the end marker \<^verbatim>\<open>'$'\<close> and leaves the
  position where it is. So the line \<^verbatim>\<open>1\<close>, newline, \<^verbatim>\<open>#\<close> parses to the literal 1 and
  evaluates to 1 with no \<^verbatim>\<open>ParseError\<close>, although \<^verbatim>\<open>#\<close> on its own line gives the
  error token \<^verbatim>\<open>'#35'\<close> and \<^verbatim>\<open>1 #\<close> is refused. For every other unrecognized character
  the claim holds: see \<open>Lexer_next_unrecognized\<close>, \<open>error_token_distinct\<close> and
  \<open>unrecognized_ParseError\<close> above.
\<close>

theorem newline_ends_input:
  "unrecognized CHR 0x0A \<and>
   (\<forall>s. Lexer_next (CHR 0x0A # s) = (TStr ''$'', CHR 0x0A # s)) \<and>
   parse (Parser (''1'' @ [CHR 0x0A] @ ''#'')) = Inr (Lit 1) \<and>
   (\<forall>vars. calc (''1'' @ [CHR 0x0A] @ ''#'') vars = (Inr 1, vars)) \<and>
   Lexer_next ''#'' = (TStr ''#35'', []) \<and>
   parse (Parser ''1 #'') = Inl (ParseError ''extraneous input [next token: #35]'')"
  using unrecognized_examples Lexer_next_newline parse_newline_hash parse_one_hash Lexer_next_hash
  by (simp add: calc_def)

end
